theory Spec2Isabelle
  imports Complex_Main "HOL-Library.Sublist"
begin

section \<open>Convergence acceleration in mpmath's calculus module\<close>

text \<open>
  This theory embeds the convergence-acceleration engine of \<^verbatim>\<open>mpmath/calculus.py\<close>:
  \<^verbatim>\<open>richardson\<close>, \<^verbatim>\<open>shanks\<close>, \<^verbatim>\<open>sumem\<close>, \<^verbatim>\<open>adaptive_extrapolation\<close> and \<^verbatim>\<open>nsum\<close>.

  Numbers (\<^verbatim>\<open>mpf\<close> values) are elements of a field with exact arithmetic; rounding to the
  working precision is not part of the model. The working precision itself is, as the
  register \<^verbatim>\<open>mp.prec\<close> of the global state. Python exceptions are values of the type
  \<open>exn\<close>, and a computation that may raise returns \<open>exn + 'a\<close> with \<open>Inl\<close> for the
  exception.
\<close>

subsection \<open>Exceptions and list access\<close>

datatype exn =
    AssertionError
  | IndexError
  | ZeroDivisionError
  | NotImplementedError
  | UnboundLocalError
  | TypeError
  | OverflowError
  | NameError
  | UserError nat

text \<open>Sequencing of computations that may raise: the first exception propagates.\<close>

definition ebind :: "exn + 'a \<Rightarrow> ('a \<Rightarrow> exn + 'b) \<Rightarrow> exn + 'b" where
  "ebind m f = (case m of Inl e \<Rightarrow> Inl e | Inr x \<Rightarrow> f x)"

text \<open>\<^verbatim>\<open>xs[n]\<close> for an index \<open>n \<ge> 0\<close>: IndexError beyond the end.\<close>

definition py_nth :: "'a list \<Rightarrow> nat \<Rightarrow> exn + 'a" where
  "py_nth xs n = (if n < length xs then Inr (xs ! n) else Inl IndexError)"

text \<open>\<^verbatim>\<open>xs[-n]\<close> for \<open>n \<ge> 1\<close>: the \<open>n\<close>-th element from the end, IndexError when the list is
  shorter than \<open>n\<close>.\<close>

definition py_nth_end :: "'a list \<Rightarrow> nat \<Rightarrow> exn + 'a" where
  "py_nth_end xs n =
     (if 1 \<le> n \<and> n \<le> length xs then Inr (xs ! (length xs - n)) else Inl IndexError)"

text \<open>\<^verbatim>\<open>one/b\<close> on mpf values raises ZeroDivisionError for \<open>b = 0\<close>.\<close>

definition mpf_div :: "'a::field \<Rightarrow> 'a \<Rightarrow> exn + 'a" where
  "mpf_div a b = (if b = 0 then Inl ZeroDivisionError else Inr (a / b))"

subsection \<open>The Shanks transformation (Wynn's epsilon algorithm)\<close>

text \<open>
  \<^verbatim>\<open>
  def shanks(seq, table=None, randomized=False):
      assert len(seq) >= 2
      if table:
          START = len(table)
      else:
          START = 0
          table = []
      STOP = len(seq) - 1
      if STOP & 1:
          STOP -= 1
      one = mpf(1)
      if randomized:
          from random import Random
          rnd = Random()
          rnd.seed(START)
      for i in xrange(START, STOP):
          row = []
          for j in xrange(i+1):
              if j == 0:
                  a, b = 0, seq[i+1]-seq[i]
              else:
                  if j == 1:
                      a = seq[i]
                  else:
                      a = table[i-1][j-2]
                  b = row[j-1] - table[i-1][j-1]
              if not b:
                  if randomized:
                      b = rnd.getrandbits(10)*eps
                  elif i & 1:
                      return table[:-1]
                  else:
                      return table
              row.append(a + one/b)
          table.append(row)
      return table
  \<close>

  The pseudorandom generator of Python's standard library is not part of the repository.
  It enters as a parameter \<open>rnd\<close>: \<open>rnd seed k\<close> is the value of the \<open>k\<close>-th call (counted
  from 0) of \<^verbatim>\<open>getrandbits(10)\<close> on a generator seeded with \<open>seed\<close>. The number of calls
  made so far is threaded through the loops. The machine epsilon \<^verbatim>\<open>eps\<close> is a parameter
  too.
\<close>

type_synonym randbits = "nat \<Rightarrow> nat \<Rightarrow> nat"

text \<open>The operands \<open>(a, b)\<close> of the entry in column \<open>j\<close> of row \<open>i\<close>. In the branch
  \<open>j \<noteq> 0\<close> the inner loop guarantees \<open>j \<le> i\<close>, so \<open>i - 1\<close> is not negative there.\<close>

definition shanks_ab :: "'a::field list \<Rightarrow> 'a list list \<Rightarrow> nat \<Rightarrow> 'a list \<Rightarrow> nat \<Rightarrow> exn + ('a \<times> 'a)" where
  "shanks_ab seq table i row j =
     (if j = 0 then
        ebind (py_nth seq (i + 1)) (\<lambda>x.
        ebind (py_nth seq i) (\<lambda>y. Inr (0, x - y)))
      else
        ebind (if j = 1 then py_nth seq i
               else ebind (py_nth table (i - 1)) (\<lambda>r. py_nth r (j - 2))) (\<lambda>a.
        ebind (py_nth row (j - 1)) (\<lambda>x.
        ebind (py_nth table (i - 1)) (\<lambda>r.
        ebind (py_nth r (j - 1)) (\<lambda>y. Inr (a, x - y))))))"

text \<open>What the inner loop over \<open>j\<close> ends with: the finished row (and the number of
  pseudorandom draws made so far), a zero denominator in deterministic mode (the
  \<^verbatim>\<open>return\<close> statements inside the loop), or an exception.\<close>

datatype 'a row_outcome = RowDone "'a list" nat | RowZero | RowRaise exn

fun shanks_row ::
  "'a::field \<Rightarrow> (nat \<Rightarrow> nat) \<Rightarrow> bool \<Rightarrow> 'a list \<Rightarrow> 'a list list \<Rightarrow> nat \<Rightarrow> nat list \<Rightarrow> 'a list \<Rightarrow> nat
     \<Rightarrow> 'a row_outcome" where
  "shanks_row eps draw randomized seq table i [] row cnt = RowDone row cnt"
| "shanks_row eps draw randomized seq table i (j # js) row cnt =
     (case shanks_ab seq table i row j of
        Inl e \<Rightarrow> RowRaise e
      | Inr (a, b) \<Rightarrow>
          if b = 0 then
            (if randomized then
               (case mpf_div 1 (of_nat (draw cnt) * eps) of
                  Inl e \<Rightarrow> RowRaise e
                | Inr q \<Rightarrow> shanks_row eps draw randomized seq table i js (row @ [a + q]) (cnt + 1))
             else RowZero)
          else
            (case mpf_div 1 b of
               Inl e \<Rightarrow> RowRaise e
             | Inr q \<Rightarrow> shanks_row eps draw randomized seq table i js (row @ [a + q]) cnt))"

fun shanks_rows ::
  "'a::field \<Rightarrow> (nat \<Rightarrow> nat) \<Rightarrow> bool \<Rightarrow> 'a list \<Rightarrow> nat list \<Rightarrow> 'a list list \<Rightarrow> nat
     \<Rightarrow> exn + 'a list list" where
  "shanks_rows eps draw randomized seq [] table cnt = Inr table"
| "shanks_rows eps draw randomized seq (i # is) table cnt =
     (case shanks_row eps draw randomized seq table i [0..<i + 1] [] cnt of
        RowRaise e \<Rightarrow> Inl e
      | RowZero \<Rightarrow> (if odd i then Inr (butlast table) else Inr table)
      | RowDone row cnt' \<Rightarrow> shanks_rows eps draw randomized seq is (table @ [row]) cnt')"

definition shanks ::
  "'a::field \<Rightarrow> randbits \<Rightarrow> 'a list \<Rightarrow> 'a list list option \<Rightarrow> bool \<Rightarrow> exn + 'a list list" where
  "shanks eps rnd seq table randomized =
     (if \<not> 2 \<le> length seq then Inl AssertionError
      else
        let (START, tbl) = (case table of
                              None \<Rightarrow> (0, [])
                            | Some t \<Rightarrow> if t \<noteq> [] then (length t, t) else (0, []));
            STOP = length seq - 1;
            STOP = (if odd STOP then STOP - 1 else STOP)
        in shanks_rows eps (rnd START) randomized seq [START..<STOP] tbl 0)"


text \<open>The row bound \<^verbatim>\<open>STOP\<close>: \<^verbatim>\<open>len(seq) - 1\<close>, lowered by one when odd.\<close>

definition stop_of :: "'a list \<Rightarrow> nat" where
  "stop_of seq = (if odd (length seq - 1) then length seq - 1 - 1 else length seq - 1)"

text \<open>A table is triangular when row \<open>i\<close> holds \<open>i + 1\<close> entries.\<close>

definition tri :: "'a list list \<Rightarrow> bool" where
  "tri t \<longleftrightarrow> (\<forall>i<length t. length (t ! i) = i + 1)"



text \<open>
  Concrete inputs for evaluation: the machine epsilon at 53 bits, and the first values
  that CPython's generator (MT19937) returns from \<^verbatim>\<open>getrandbits(10)\<close> after
  \<^verbatim>\<open>seed(0)\<close> (414 values, the last of which is the first 0), \<^verbatim>\<open>seed(2)\<close> and
  \<^verbatim>\<open>seed(1514)\<close>. Positions outside the table are set to 1; no theorem below reaches
  them.
\<close>

definition eps53 :: rat where
  "eps53 = 1 / 2 ^ 52"

definition mt_seed0 :: "nat list" where
  "mt_seed0 =
       [864, 394, 776, 911, 430, 41, 265, 988, 523, 497, 414, 940, 802, 849, 310, 991,
        488, 366, 597, 913, 929, 223, 516, 142, 288, 143, 773, 97, 633, 818, 256, 1010,
        931, 545, 1006, 722, 829, 616, 923, 150, 317, 101, 747, 75, 920, 870, 700, 338,
        483, 573, 103, 362, 444, 323, 625, 655, 934, 209, 989, 565, 488, 453, 886, 533,
        266, 63, 824, 940, 561, 937, 14, 95, 736, 860, 408, 727, 844, 803, 684, 640, 1,
        626, 505, 847, 888, 341, 249, 747, 333, 720, 891, 64, 195, 939, 581, 227, 244,
        822, 990, 145, 822, 556, 458, 93, 82, 1017, 327, 896, 520, 1021, 955, 501, 111,
        308, 564, 298, 723, 127, 560, 340, 834, 944, 553, 208, 986, 818, 617, 560, 601,
        294, 455, 93, 610, 817, 394, 324, 589, 247, 297, 188, 193, 841, 191, 33, 627,
        1004, 672, 266, 487, 70, 91, 695, 775, 133, 897, 153, 945, 39, 862, 82, 919,
        716, 945, 849, 553, 699, 400, 857, 722, 537, 282, 534, 831, 241, 869, 220, 916,
        695, 603, 845, 972, 429, 593, 281, 461, 504, 676, 656, 1020, 717, 938, 1006,
        812, 365, 84, 332, 627, 118, 498, 601, 645, 343, 865, 194, 248, 16, 749, 277,
        119, 722, 225, 380, 813, 174, 340, 436, 835, 63, 103, 801, 149, 875, 714, 224,
        46, 836, 587, 649, 931, 958, 547, 616, 696, 75, 27, 127, 650, 193, 620, 850,
        589, 122, 400, 93, 379, 853, 1004, 118, 37, 620, 22, 199, 984, 993, 189, 735,
        126, 490, 215, 744, 819, 62, 959, 695, 23, 557, 435, 635, 103, 855, 266, 71,
        226, 73, 662, 308, 358, 446, 184, 62, 515, 478, 40, 610, 103, 716, 1011, 400,
        204, 266, 367, 926, 749, 481, 858, 923, 940, 583, 173, 714, 688, 208, 989, 785,
        59, 807, 692, 162, 865, 165, 350, 542, 256, 120, 611, 943, 452, 681, 179, 13,
        482, 697, 419, 921, 582, 895, 520, 939, 318, 664, 365, 397, 857, 673, 256, 157,
        574, 707, 12, 468, 759, 80, 343, 756, 46, 557, 287, 138, 245, 780, 976, 493,
        360, 624, 294, 689, 367, 604, 969, 913, 648, 874, 635, 135, 732, 317, 397, 766,
        424, 848, 666, 82, 1, 608, 196, 715, 342, 163, 245, 228, 652, 458, 387, 727,
        896, 689, 581, 895, 424, 32, 411, 892, 718, 581, 428, 790, 678, 726, 47, 169,
        456, 65, 265, 718, 161, 457, 540, 906, 498, 929, 574, 618, 773, 0]"

definition mt_getrandbits10 :: randbits where
  "mt_getrandbits10 seed k =
     (case map_of [(0, mt_seed0),
                   (2, [978, 883, 970, 869, 57, 93]),
                   (1514, [0, 146, 556, 424, 303, 490])] seed of
        Some ds \<Rightarrow> if k < length ds then ds ! k else 1
      | None \<Rightarrow> 1)"

subsection \<open>Richardson extrapolation\<close>

text \<open>
  \<^verbatim>\<open>
  def richardson(seq):
      assert len(seq) >= 3
      if sign(seq[-1]-seq[-2]) != sign(seq[-2]-seq[-3]):
          seq = seq[::2]
      N = len(seq)//2-1
      s = mpf(0)
      # The general weight is c[k] = (N+k)**N * (-1)**(k+N) / k! / (N-k)!
      # To avoid repeated factorials, we simplify the quotient
      # of successive weights to obtain a recurrence relation
      c = (-1)**N * N**N / mpf(int_fac(N))
      maxc = 1
      for k in xrange(N+1):
          s += c * seq[N+k]
          maxc = max(abs(c), maxc)
          c *= (k-N)*mpf(k+N+1)**N
          c /= ((1+k)*mpf(k+N)**N)
      return s, maxc
  \<close>
  The sequence is a list of real numbers (an ordered field). \<^verbatim>\<open>seq[::2]\<close> keeps the
  elements of even index. After the restriction the sequence has at least 2 elements, so
  \<^verbatim>\<open>len(seq)//2-1\<close> is not negative.
\<close>

fun evens :: "'a list \<Rightarrow> 'a list" where
  "evens [] = []"
| "evens [x] = [x]"
| "evens (x # y # xs) = x # evens xs"

fun richardson_loop :: "'a::linordered_field list \<Rightarrow> nat \<Rightarrow> nat list \<Rightarrow> 'a \<times> 'a \<times> 'a \<Rightarrow> exn + ('a \<times> 'a)" where
  "richardson_loop seq N [] (s, maxc, c) = Inr (s, maxc)"
| "richardson_loop seq N (k # ks) (s, maxc, c) =
     ebind (py_nth seq (N + k)) (\<lambda>x.
       let s = s + c * x;
           maxc = max \<bar>c\<bar> maxc;
           c = c * (of_int (int k - int N) * of_nat (k + N + 1) ^ N)
       in ebind (mpf_div c (of_nat (1 + k) * of_nat (k + N) ^ N)) (\<lambda>c.
            richardson_loop seq N ks (s, maxc, c)))"

definition richardson_seq :: "'a::linordered_field list \<Rightarrow> exn + 'a list" where
  "richardson_seq seq =
     ebind (py_nth_end seq 1) (\<lambda>x1.
     ebind (py_nth_end seq 2) (\<lambda>x2.
     ebind (py_nth_end seq 3) (\<lambda>x3.
       Inr (if sgn (x1 - x2) \<noteq> sgn (x2 - x3) then evens seq else seq))))"

definition richardson :: "'a::linordered_field list \<Rightarrow> exn + ('a \<times> 'a)" where
  "richardson seq =
     (if \<not> 3 \<le> length seq then Inl AssertionError
      else ebind (richardson_seq seq) (\<lambda>seq.
        let N = length seq div 2 - 1;
            c = (- 1) ^ N * of_nat (N ^ N) / of_nat (fact N)
        in richardson_loop seq N [0..<N + 1] (0, 1, c)))"



subsection \<open>Global state and computations\<close>

text \<open>
  The only process-wide register the functions below touch is the working precision
  \<^verbatim>\<open>mp.prec\<close>. Caller-supplied code (term functions, derivative generators, the
  quadrature routine) may read and change it, may change anything else (\<open>world\<close>), may raise
  and may fail to return. A computation therefore maps a state to \<open>None\<close> when it does not
  return, and otherwise to its outcome (an exception or a value) and the state it leaves.
\<close>

record 'u mp_state =
  prec :: int
  world :: 'u

type_synonym ('u, 'a) comp = "'u mp_state \<Rightarrow> ((exn + 'a) \<times> 'u mp_state) option"

definition ret :: "'a \<Rightarrow> ('u, 'a) comp" where
  "ret x = (\<lambda>s. Some (Inr x, s))"

definition raise :: "exn \<Rightarrow> ('u, 'a) comp" where
  "raise e = (\<lambda>s. Some (Inl e, s))"

definition lift :: "exn + 'a \<Rightarrow> ('u, 'a) comp" where
  "lift r = (\<lambda>s. Some (r, s))"

definition cbind :: "('u, 'a) comp \<Rightarrow> ('a \<Rightarrow> ('u, 'b) comp) \<Rightarrow> ('u, 'b) comp" where
  "cbind m f = (\<lambda>s. case m s of
                      None \<Rightarrow> None
                    | Some (Inl e, s') \<Rightarrow> Some (Inl e, s')
                    | Some (Inr x, s') \<Rightarrow> f x s')"

definition get_prec :: "('u, int) comp" where
  "get_prec = (\<lambda>s. Some (Inr (prec s), s))"

definition set_prec :: "int \<Rightarrow> ('u, unit) comp" where
  "set_prec p = (\<lambda>s. Some (Inr (), s\<lparr>prec := p\<rparr>))"

text \<open>\<^verbatim>\<open>try: m finally: fin\<close>. The handler runs whether the body returned or raised; the
  outcome of the body stands unless the handler raises itself.\<close>

definition try_finally :: "('u, 'a) comp \<Rightarrow> ('u, unit) comp \<Rightarrow> ('u, 'a) comp" where
  "try_finally m fin = (\<lambda>s. case m s of
                      None \<Rightarrow> None
                    | Some (r, s') \<Rightarrow>
                        (case fin s' of
                           None \<Rightarrow> None
                         | Some (Inl e, s'') \<Rightarrow> Some (Inl e, s'')
                         | Some (Inr u, s'') \<Rightarrow> Some (r, s'')))"

text \<open>Interval endpoints, a generator (the \<open>k\<close>-th call of \<^verbatim>\<open>next\<close>, \<open>None\<close> for
  StopIteration), and the collaborators of the acceleration engine, which enter as
  parameters: the machine epsilon and the decimal precision as functions of \<^verbatim>\<open>mp.prec\<close>,
  the pseudorandom generator, the Bernoulli numbers and the quadrature routine
  \<^verbatim>\<open>quad(f, interval, error=True)\<close>, all defined outside \<^verbatim>\<open>calculus.py\<close>, and the
  derivative generator \<^verbatim>\<open>diffs(f, x)\<close> (numerical differentiation; it calls \<open>f\<close> and
  changes \<^verbatim>\<open>mp.prec\<close> while it runs). The properties below hold for every choice of
  them.\<close>

datatype endpoint = NegInf | Fin rat | PosInf

type_synonym 'u termfun = "rat \<Rightarrow> ('u, rat) comp"

type_synonym 'u generator = "nat \<Rightarrow> ('u, rat option) comp"

record 'u env =
  eps_at :: "int \<Rightarrow> rat"
  dps_at :: "int \<Rightarrow> int"
  getrandbits10 :: randbits
  bernoulli :: "nat \<Rightarrow> rat"
  quad :: "'u termfun \<Rightarrow> rat option \<times> rat option \<Rightarrow> ('u, rat \<times> rat) comp"
  diffs :: "'u termfun \<Rightarrow> rat \<Rightarrow> 'u generator"

text \<open>Reading the global \<^verbatim>\<open>eps\<close> gives the epsilon of the precision set at that moment.\<close>

definition get_eps :: "'u env \<Rightarrow> ('u, rat) comp" where
  "get_eps env = (\<lambda>s. Some (Inr (eps_at env (prec s)), s))"

subsection \<open>Euler-Maclaurin summation\<close>

text \<open>
  \<^verbatim>\<open>
  def sumem(f, interval, tol=None, reject=10, integral=None,
      adiffs=None, bdiffs=None, verbose=False, error=False):
      tol = tol or +eps
      interval = AS_POINTS(interval)
      a = mpmathify(interval[0])
      b = mpmathify(interval[-1])
      err = mpf(0)
      prev = 0
      M = 10000
      if a == -inf: adiffs = (0 for n in xrange(M))
      else:         adiffs = adiffs or diffs(f, a)
      if b == inf:  bdiffs = (0 for n in xrange(M))
      else:         bdiffs = bdiffs or diffs(f, b)
      orig = mp.prec
      try:
          mp.prec += 10
          s = mpf(0)
          for k, (da, db) in enumerate(izip(adiffs, bdiffs)):
              if k & 1:
                  term = (db-da) * bernoulli(k+1) / factorial(k+1)
                  mag = abs(term)
                  if k > 4 and mag < tol:
                      s += term
                      break
                  elif k > 4 and abs(prev) / mag < reject:
                      err += mag
                      break
                  else:
                      s += term
                  prev = term
          # Endpoint correction
          if a != -inf: s += f(a)/2
          if b != inf: s += f(b)/2
          # Tail integral
          if integral:
              s += integral
          else:
              integral, ierr = quad(f, interval, error=True)
              s += integral
              err += ierr
      finally:
          mp.prec = orig
      if error:
          return s, err
      else:
          return s
  \<close>
  (The \<^verbatim>\<open>verbose\<close> prints are left out.) The interval is its pair of endpoints. The loop
  over \<^verbatim>\<open>izip(adiffs, bdiffs)\<close> need not end when both generators are infinite, so it
  takes fuel: one unit per pair drawn.
\<close>

definition zeros :: "nat \<Rightarrow> 'u generator" where
  "zeros M = (\<lambda>k. ret (if k < M then Some 0 else None))"

fun sumem_loop ::
  "'u env \<Rightarrow> rat \<Rightarrow> rat \<Rightarrow> 'u generator \<Rightarrow> 'u generator \<Rightarrow> nat \<Rightarrow> nat \<Rightarrow> rat \<times> rat \<times> rat
     \<Rightarrow> ('u, rat \<times> rat) comp" where
  "sumem_loop env tol reject adiffs bdiffs 0 k (s, err, prev) = (\<lambda>st. None)"
| "sumem_loop env tol reject adiffs bdiffs (Suc fuel) k (s, err, prev) =
     cbind (adiffs k) (\<lambda>nxa. case nxa of
       None \<Rightarrow> ret (s, err)
     | Some da \<Rightarrow>
     cbind (bdiffs k) (\<lambda>nxb. case nxb of
       None \<Rightarrow> ret (s, err)
     | Some db \<Rightarrow>
         if odd k then
           let term = (db - da) * bernoulli env (k + 1) / fact (k + 1);
               mag = \<bar>term\<bar>
           in if k > 4 \<and> mag < tol then ret (s + term, err)
              else if k > 4 then
                cbind (lift (mpf_div \<bar>prev\<bar> mag)) (\<lambda>q.
                  if q < reject then ret (s, err + mag)
                  else sumem_loop env tol reject adiffs bdiffs fuel (k + 1) (s + term, err, term))
              else sumem_loop env tol reject adiffs bdiffs fuel (k + 1) (s + term, err, term)
         else sumem_loop env tol reject adiffs bdiffs fuel (k + 1) (s, err, prev)))"

text \<open>The endpoint correction \<^verbatim>\<open>s += f(x)/2\<close> at a finite endpoint, and the tail integral.
  \<^verbatim>\<open>if integral:\<close> is false for \<^verbatim>\<open>None\<close> and for a zero value.\<close>

definition endpoint_correction :: "'u termfun \<Rightarrow> rat option \<Rightarrow> rat \<Rightarrow> ('u, rat) comp" where
  "endpoint_correction f x s =
     (case x of None \<Rightarrow> ret s | Some x \<Rightarrow> cbind (f x) (\<lambda>y. ret (s + y / 2)))"

definition tail_integral ::
  "'u env \<Rightarrow> 'u termfun \<Rightarrow> rat option \<times> rat option \<Rightarrow> rat option \<Rightarrow> rat \<times> rat
     \<Rightarrow> ('u, rat \<times> rat) comp" where
  "tail_integral env f interval integral se =
     (case se of (s, err) \<Rightarrow>
        (case (if integral = Some 0 then None else integral) of
           Some i \<Rightarrow> ret (s + i, err)
         | None \<Rightarrow> cbind (quad env f interval) (\<lambda>(i, ierr). ret (s + i, err + ierr))))"

text \<open>The interval \<open>(a, b)\<close> of \<^verbatim>\<open>sumem\<close>: \<open>a = None\<close> stands for \<open>-inf\<close> and \<open>b = None\<close> for
  \<open>+inf\<close>. An interval that starts at \<open>+inf\<close> or ends at \<open>-inf\<close> is not in the model. With
  \<^verbatim>\<open>error=False\<close> the caller receives the sum alone.\<close>

definition sumem ::
  "'u env \<Rightarrow> 'u termfun \<Rightarrow> rat option \<times> rat option \<Rightarrow> rat option \<Rightarrow> rat \<Rightarrow> rat option
     \<Rightarrow> 'u generator option \<Rightarrow> 'u generator option \<Rightarrow> bool \<Rightarrow> nat \<Rightarrow> ('u, rat \<times> rat option) comp" where
  "sumem env f interval tol reject integral adiffs bdiffs error fuel =
     cbind (get_eps env) (\<lambda>eps.
       let tol = (case tol of None \<Rightarrow> eps | Some t \<Rightarrow> if t \<noteq> 0 then t else eps);
           a = fst interval;
           b = snd interval;
           adiffs = (case a of None \<Rightarrow> zeros 10000
                     | Some x \<Rightarrow> (case adiffs of Some g \<Rightarrow> g | None \<Rightarrow> diffs env f x));
           bdiffs = (case b of None \<Rightarrow> zeros 10000
                     | Some x \<Rightarrow> (case bdiffs of Some g \<Rightarrow> g | None \<Rightarrow> diffs env f x))
       in cbind get_prec (\<lambda>orig.
          cbind (try_finally
                   (cbind (set_prec (orig + 10)) (\<lambda>u.
                    cbind (sumem_loop env tol reject adiffs bdiffs fuel 0 (0, 0, 0)) (\<lambda>(s, err).
                    cbind (endpoint_correction f a s) (\<lambda>s.
                    cbind (endpoint_correction f b s) (\<lambda>s.
                      tail_integral env f interval integral (s, err))))))
                   (set_prec orig)) (\<lambda>(s, err).
            ret (s, if error then Some err else None))))"

subsection \<open>The adaptive orchestrator\<close>

text \<open>
  \<^verbatim>\<open>
  def adaptive_extrapolation(update, emfun, kwargs):
      option = kwargs.get
      tol = option('tol', eps/2**10)
      verbose = option('verbose', False)
      maxterms = option('maxterms', mp.dps*10)
      method = option('method', 'r+s').split('+')
      skip = option('skip', 0)
      steps = iter(option('steps', xrange(10, 10**9, 10)))
      if method in ('d', 'direct'):
          TRY_RICHARDSON = self.TRY_SHANKS = \
              TRY_EULER_MACLAURIN = False
      else:
          TRY_RICHARDSON = ('r' in method) or ('richardson' in method)
          TRY_SHANKS = ('s' in method) or ('shanks' in method)
          TRY_EULER_MACLAURIN = ('e' in method) or \
              ('euler-maclaurin' in method)
      last_richardson_value = 0
      shanks_table = []
      index = 0
      step = 10
      partial = []
      best = mpf(0)
      orig = mp.prec
      try:
          if TRY_RICHARDSON or TRY_SHANKS:
              mp.prec *= 4
          else:
              mp.prec += 30
          while 1:
              if index >= maxterms:
                  break
              # Get new batch of terms
              try:
                  step = steps.next()
              except StopIteration:
                  pass
              update(partial, xrange(index, index+step))
              index += step
              # Check direct error
              best = partial[-1]
              error = abs(best - partial[-2])
              if error <= tol:
                  return best
              # Check each extrapolation method
              if TRY_RICHARDSON:
                  value, maxc = richardson(partial)
                  # Convergence
                  richardson_error = abs(value - last_richardson_value)
                  # Convergence
                  if richardson_error <= tol:
                      return value
                  last_richardson_value = value
                  # Unreliable due to cancellation
                  if eps*maxc > tol:
                      TRY_RICHARDSON = False
                  if richardson_error < error:
                      error = richardson_error
                      best = value
              if TRY_SHANKS:
                  shanks_table = shanks(partial, shanks_table, randomized=True)
                  row = shanks_table[-1]
                  if len(row) == 2:
                      est1 = row[-1]
                      shanks_error = 0
                  else:
                      est1, maxc, est2 = row[-1], abs(row[-2]), row[-3]
                      shanks_error = abs(est1-est2)
                  if shanks_error <= tol:
                      return est1
                  if eps*maxc > tol:
                      TRY_SHANKS = False
                  if shanks_error < error:
                      error = shanks_error
                      best = est1
              if TRY_EULER_MACLAURIN:
                  if mpc(sign(partial[-1]) / sign(partial[-2])).ae(-1):
                      TRY_EULER_MACLAURIN = False
                  else:
                      value, em_error = emfun(index+1, tol)
                      value += partial[-1]
                      if em_error <= tol:
                          return value
                      if em_error < error:
                          best = value
      finally:
          mp.prec = orig
      return best
  \<close>
  (The \<^verbatim>\<open>verbose\<close> prints are left out; \<^verbatim>\<open>skip\<close> is read and never used.)
\<close>

text \<open>The keyword arguments that have an effect; \<open>None\<close> for a key that is absent.\<close>

record kwargs =
  kw_tol :: "rat option"
  kw_maxterms :: "int option"
  kw_method :: "string option"
  kw_steps :: "int list option"

text \<open>\<^verbatim>\<open>str.split('+')\<close>.\<close>

fun split_plus :: "string \<Rightarrow> string list" where
  "split_plus [] = [[]]"
| "split_plus (c # cs) =
     (if c = CHR ''+'' then [] # split_plus cs
      else (case split_plus cs of t # ts \<Rightarrow> (c # t) # ts | [] \<Rightarrow> [[c]]))"

text \<open>\<^verbatim>\<open>method in ('d', 'direct')\<close> compares the list \<^verbatim>\<open>method\<close> with two strings. A list is
  never equal to a string, so the test is false for every method string.\<close>

definition method_in_direct :: "string list \<Rightarrow> bool" where
  "method_in_direct method = False"

text \<open>The batch sizes: \<^verbatim>\<open>iter(steps)\<close> as the function from the position to the element
  there, \<open>None\<close> past the end. The default is \<^verbatim>\<open>xrange(10, 10**9, 10)\<close>.\<close>

definition steps_iter :: "int list option \<Rightarrow> nat \<Rightarrow> int option" where
  "steps_iter steps k =
     (case steps of
        Some xs \<Rightarrow> if k < length xs then Some (xs ! k) else None
      | None \<Rightarrow> if k < 99999999 then Some (10 * (int k + 1)) else None)"

text \<open>The variables of the loop. \<^verbatim>\<open>maxc\<close> is unbound until Richardson or Shanks assigns
  it; \<^verbatim>\<open>error\<close> is assigned in every iteration before it is read.\<close>

record loop_vars =
  TRY_RICHARDSON :: bool
  TRY_SHANKS :: bool
  TRY_EULER_MACLAURIN :: bool
  last_richardson_value :: rat
  shanks_table :: "rat list list"
  index :: int
  step :: int
  steps_pos :: nat
  partial :: "rat list"
  best :: rat
  error :: rat
  maxc :: "rat option"

datatype outcome = Return rat | Continue loop_vars

type_synonym 'u updatefun = "rat list \<Rightarrow> int list \<Rightarrow> ('u, rat list) comp"

type_synonym 'u emfun = "int \<Rightarrow> rat \<Rightarrow> ('u, rat \<times> rat) comp"

text \<open>A stage of the loop body runs unless an earlier stage returned.\<close>

definition and_then :: "('u, outcome) comp \<Rightarrow> (loop_vars \<Rightarrow> ('u, outcome) comp) \<Rightarrow> ('u, outcome) comp" where
  "and_then m f = cbind m (\<lambda>out. case out of Return x \<Rightarrow> ret (Return x) | Continue v \<Rightarrow> f v)"

text \<open>The new batch (\<open>next_step\<close> is the \<^verbatim>\<open>try\<close> around \<^verbatim>\<open>steps.next()\<close>) and the direct
  error (\<open>direct_check\<close>). \<^verbatim>\<open>xrange(index, index+step)\<close> is the list
  \<open>[index..index+step-1]\<close>, empty for \<open>step \<le> 0\<close>. \<^verbatim>\<open>update\<close> extends the list in place; here
  it returns the extended list.\<close>

definition next_step :: "(nat \<Rightarrow> int option) \<Rightarrow> loop_vars \<Rightarrow> loop_vars" where
  "next_step steps v =
     (case steps (steps_pos v) of
        Some st \<Rightarrow> v\<lparr>step := st, steps_pos := steps_pos v + 1\<rparr>
      | None \<Rightarrow> v)"

definition direct_check :: "rat \<Rightarrow> loop_vars \<Rightarrow> rat list \<Rightarrow> ('u, outcome) comp" where
  "direct_check tol v p =
     (let v = v\<lparr>partial := p, index := index v + step v\<rparr>
      in cbind (lift (py_nth_end p 1)) (\<lambda>b.
         cbind (lift (py_nth_end p 2)) (\<lambda>p2.
           let v = v\<lparr>best := b, error := \<bar>b - p2\<bar>\<rparr>
           in if error v \<le> tol then ret (Return b) else ret (Continue v))))"

definition direct_stage :: "'u updatefun \<Rightarrow> rat \<Rightarrow> (nat \<Rightarrow> int option) \<Rightarrow> loop_vars \<Rightarrow> ('u, outcome) comp" where
  "direct_stage update tol steps v =
     (let v = next_step steps v
      in cbind (update (partial v) [index v..index v + step v - 1]) (direct_check tol v))"

definition richardson_stage :: "'u env \<Rightarrow> rat \<Rightarrow> loop_vars \<Rightarrow> ('u, outcome) comp" where
  "richardson_stage env tol v =
     (if TRY_RICHARDSON v then
        cbind (lift (richardson (partial v))) (\<lambda>(val, mc).
          let richardson_error = \<bar>val - last_richardson_value v\<bar>
          in if richardson_error \<le> tol then ret (Return val)
             else cbind (get_eps env) (\<lambda>eps.
               let v = v\<lparr>last_richardson_value := val, maxc := Some mc\<rparr>;
                   v = (if eps * mc > tol then v\<lparr>TRY_RICHARDSON := False\<rparr> else v);
                   v = (if richardson_error < error v
                        then v\<lparr>error := richardson_error, best := val\<rparr> else v)
               in ret (Continue v)))
      else ret (Continue v))"

definition shanks_stage :: "'u env \<Rightarrow> rat \<Rightarrow> loop_vars \<Rightarrow> ('u, outcome) comp" where
  "shanks_stage env tol v =
     (if TRY_SHANKS v then
        cbind (get_eps env) (\<lambda>eps.
        cbind (lift (shanks eps (getrandbits10 env) (partial v) (Some (shanks_table v)) True)) (\<lambda>tbl.
        cbind (lift (py_nth_end tbl 1)) (\<lambda>row.
        cbind (if length row = 2 then
                 cbind (lift (py_nth_end row 1)) (\<lambda>est1. ret (est1, maxc v, 0))
               else
                 cbind (lift (py_nth_end row 1)) (\<lambda>est1.
                 cbind (lift (py_nth_end row 2)) (\<lambda>r2.
                 cbind (lift (py_nth_end row 3)) (\<lambda>est2.
                   ret (est1, Some \<bar>r2\<bar>, \<bar>est1 - est2\<bar>))))) (\<lambda>(est1, mc, shanks_error).
          let v = v\<lparr>shanks_table := tbl, maxc := mc\<rparr>
          in if shanks_error \<le> tol then ret (Return est1)
             else (case mc of
                     None \<Rightarrow> raise UnboundLocalError
                   | Some m \<Rightarrow>
                       cbind (get_eps env) (\<lambda>eps.
                         let v = (if eps * m > tol then v\<lparr>TRY_SHANKS := False\<rparr> else v);
                             v = (if shanks_error < error v
                                  then v\<lparr>error := shanks_error, best := est1\<rparr> else v)
                         in ret (Continue v)))))))
      else ret (Continue v))"

text \<open>Modelled from the spec: \<^verbatim>\<open>mpc(x).ae(-1)\<close> is not in \<^verbatim>\<open>calculus.py\<close>; the spec calls
  it "the sign ratio is approximately -1". \<^verbatim>\<open>sign\<close> is imported from \<^verbatim>\<open>functions\<close>; on a real
  number it is \<open>sgn\<close>. The quotient of the signs of two real numbers is \<open>-1\<close>, \<open>0\<close> or \<open>1\<close>
  (a division by the sign 0 raises), and being approximately \<open>-1\<close> separates \<open>-1\<close> from
  the other two.\<close>

definition ae_minus_one :: "rat \<Rightarrow> bool" where
  "ae_minus_one q \<longleftrightarrow> q = - 1"

text \<open>\<^verbatim>\<open>limit\<close> passes \<^verbatim>\<open>None\<close> for \<^verbatim>\<open>emfun\<close>; calling it raises TypeError.\<close>

definition euler_maclaurin_stage :: "'u emfun option \<Rightarrow> rat \<Rightarrow> loop_vars \<Rightarrow> ('u, outcome) comp" where
  "euler_maclaurin_stage emfun tol v =
     (if TRY_EULER_MACLAURIN v then
        cbind (lift (py_nth_end (partial v) 1)) (\<lambda>p1.
        cbind (lift (py_nth_end (partial v) 2)) (\<lambda>p2.
        cbind (lift (mpf_div (sgn p1) (sgn p2))) (\<lambda>q.
          if ae_minus_one q then ret (Continue (v\<lparr>TRY_EULER_MACLAURIN := False\<rparr>))
          else (case emfun of
                  None \<Rightarrow> raise TypeError
                | Some em \<Rightarrow>
                    cbind (em (index v + 1) tol) (\<lambda>(val, em_error).
                    cbind (lift (py_nth_end (partial v) 1)) (\<lambda>p.
                      let val = val + p
                      in if em_error \<le> tol then ret (Return val)
                         else ret (Continue (if em_error < error v then v\<lparr>best := val\<rparr> else v))))))))
      else ret (Continue v))"

definition iteration ::
  "'u env \<Rightarrow> 'u updatefun \<Rightarrow> 'u emfun option \<Rightarrow> rat \<Rightarrow> (nat \<Rightarrow> int option) \<Rightarrow> loop_vars
     \<Rightarrow> ('u, outcome) comp" where
  "iteration env update emfun tol steps v =
     and_then (and_then (and_then (direct_stage update tol steps v)
       (richardson_stage env tol)) (shanks_stage env tol)) (euler_maclaurin_stage emfun tol)"

text \<open>The \<^verbatim>\<open>while 1\<close> loop. It need not end (a batch size of 0 adds no term), so it takes
  fuel: one unit per iteration. The value is what the function returns, from a
  \<^verbatim>\<open>return\<close> inside the loop or from \<^verbatim>\<open>return best\<close> after a \<^verbatim>\<open>break\<close>.\<close>

fun extrapolation_loop ::
  "'u env \<Rightarrow> 'u updatefun \<Rightarrow> 'u emfun option \<Rightarrow> rat \<Rightarrow> int \<Rightarrow> (nat \<Rightarrow> int option) \<Rightarrow> nat
     \<Rightarrow> loop_vars \<Rightarrow> ('u, rat) comp" where
  "extrapolation_loop env update emfun tol maxterms steps 0 v = (\<lambda>s. None)"
| "extrapolation_loop env update emfun tol maxterms steps (Suc fuel) v =
     (if index v \<ge> maxterms then ret (best v)
      else cbind (iteration env update emfun tol steps v) (\<lambda>out.
             case out of
               Return x \<Rightarrow> ret x
             | Continue v' \<Rightarrow> extrapolation_loop env update emfun tol maxterms steps fuel v'))"

definition initial_vars :: "string list \<Rightarrow> loop_vars" where
  "initial_vars method =
     \<lparr>TRY_RICHARDSON = ''r'' \<in> set method \<or> ''richardson'' \<in> set method,
      TRY_SHANKS = ''s'' \<in> set method \<or> ''shanks'' \<in> set method,
      TRY_EULER_MACLAURIN = ''e'' \<in> set method \<or> ''euler-maclaurin'' \<in> set method,
      last_richardson_value = 0,
      shanks_table = [],
      index = 0,
      step = 10,
      steps_pos = 0,
      partial = [],
      best = 0,
      error = 0,
      maxc = None\<rparr>"

definition adaptive_extrapolation ::
  "'u env \<Rightarrow> 'u updatefun \<Rightarrow> 'u emfun option \<Rightarrow> kwargs \<Rightarrow> nat \<Rightarrow> ('u, rat) comp" where
  "adaptive_extrapolation env update emfun kwargs fuel =
     cbind (get_eps env) (\<lambda>eps.
     cbind get_prec (\<lambda>p.
       let tol = (case kw_tol kwargs of Some t \<Rightarrow> t | None \<Rightarrow> eps / 2 ^ 10);
           maxterms = (case kw_maxterms kwargs of Some m \<Rightarrow> m | None \<Rightarrow> dps_at env p * 10);
           method = split_plus (case kw_method kwargs of Some m \<Rightarrow> m | None \<Rightarrow> ''r+s'');
           steps = steps_iter (kw_steps kwargs)
       in if method_in_direct method then raise NameError
          else
            let v = initial_vars method
            in cbind get_prec (\<lambda>orig.
                 try_finally
                   (cbind (set_prec (if TRY_RICHARDSON v \<or> TRY_SHANKS v then orig * 4
                                     else orig + 30)) (\<lambda>u.
                      extrapolation_loop env update emfun tol maxterms steps fuel v))
                   (set_prec orig))))"

subsection \<open>Sums over infinite ranges\<close>

text \<open>
  \<^verbatim>\<open>
  def nsum(f, interval, **kwargs):
      a, b = AS_POINTS(interval)
      if a == -inf:
          if b == inf:
              return f(0) + nsum(lambda k: f(-k) + f(k), [1, inf], **kwargs)
          return nsum(f, [-b, inf], **kwargs)
      elif b != inf:
          raise NotImplementedError("finite sums")

      a = int(a)

      def update(partial_sums, indices):
          if partial_sums:
              psum = partial_sums[-1]
          else:
              psum = mpf(0)
          for k in indices:
              psum = psum + f(a + mpf(k))
              partial_sums.append(psum)

      prec = mp.prec

      def emfun(point, tol):
          workprec = mp.prec
          mp.prec = prec + 10
          v = sumem(f, [point, inf], tol, error=1)
          mp.prec = workprec
          return v

      return +adaptive_extrapolation(update, emfun, kwargs)
  \<close>
  The interval is its pair of endpoints.
\<close>

fun update_loop :: "'u termfun \<Rightarrow> int \<Rightarrow> rat \<Rightarrow> rat list \<Rightarrow> int list \<Rightarrow> ('u, rat list) comp" where
  "update_loop f a psum partial_sums [] = ret partial_sums"
| "update_loop f a psum partial_sums (k # ks) =
     cbind (f (of_int a + of_int k)) (\<lambda>y.
       update_loop f a (psum + y) (partial_sums @ [psum + y]) ks)"

definition nsum_update :: "'u termfun \<Rightarrow> int \<Rightarrow> 'u updatefun" where
  "nsum_update f a partial_sums indices =
     update_loop f a (if partial_sums \<noteq> [] then last partial_sums else 0) partial_sums indices"

definition nsum_emfun :: "'u env \<Rightarrow> 'u termfun \<Rightarrow> int \<Rightarrow> nat \<Rightarrow> 'u emfun" where
  "nsum_emfun env f prec0 fuel point tol =
     cbind get_prec (\<lambda>workprec.
     cbind (set_prec (prec0 + 10)) (\<lambda>u.
     cbind (sumem env f (Some (of_int point), None) (Some tol) 10 None None None True fuel) (\<lambda>(s, err).
     cbind (set_prec workprec) (\<lambda>u.
       ret (s, case err of Some e \<Rightarrow> e | None \<Rightarrow> 0)))))"

text \<open>\<^verbatim>\<open>-b\<close> and \<^verbatim>\<open>int(a)\<close> on endpoints; \<^verbatim>\<open>int\<close> truncates towards zero and raises on an
  infinity (the exception class is that of a Python float; no property below reads it).\<close>

fun neg_endpoint :: "endpoint \<Rightarrow> endpoint" where
  "neg_endpoint NegInf = PosInf"
| "neg_endpoint (Fin x) = Fin (- x)"
| "neg_endpoint PosInf = NegInf"

definition py_int :: "endpoint \<Rightarrow> exn + int" where
  "py_int a = (case a of Fin x \<Rightarrow> Inr (if 0 \<le> x then \<lfloor>x\<rfloor> else \<lceil>x\<rceil>) | _ \<Rightarrow> Inl OverflowError)"

function nsum :: "'u env \<Rightarrow> 'u termfun \<Rightarrow> endpoint \<times> endpoint \<Rightarrow> kwargs \<Rightarrow> nat \<Rightarrow> ('u, rat) comp" where
  "nsum env f (a, b) kwargs fuel =
     (if a = NegInf then
        (if b = PosInf then
           cbind (f 0) (\<lambda>f0.
           cbind (nsum env (\<lambda>k. cbind (f (- k)) (\<lambda>x. cbind (f k) (\<lambda>y. ret (x + y))))
                    (Fin 1, PosInf) kwargs fuel) (\<lambda>r.
             ret (f0 + r)))
         else nsum env f (neg_endpoint b, PosInf) kwargs fuel)
      else if b \<noteq> PosInf then raise NotImplementedError
      else
        cbind (lift (py_int a)) (\<lambda>a.
        cbind get_prec (\<lambda>prec0.
          adaptive_extrapolation env (nsum_update f a) (Some (nsum_emfun env f prec0 fuel))
            kwargs fuel)))"
  by pat_completeness auto
termination
  by (relation "measure (\<lambda>(env, f, (a, b), kwargs, fuel). if a = NegInf then 1 else 0)")
     (auto elim: neg_endpoint.elims)

subsection \<open>Vocabulary of the statements and concrete inputs\<close>



text \<open>The method tags that \<^verbatim>\<open>adaptive_extrapolation\<close> looks for.\<close>

definition known_tags :: "string set" where
  "known_tags = {''r'', ''richardson'', ''s'', ''shanks'', ''e'', ''euler-maclaurin''}"

text \<open>What the first iteration of the orchestrator works with: the first batch size (10 when
  the schedule is empty), the term budget, the parsed method, the state with the elevated
  precision, and the call of \<^verbatim>\<open>update\<close> on the empty list.\<close>

definition first_step :: "kwargs \<Rightarrow> int" where
  "first_step kwargs = (case steps_iter (kw_steps kwargs) 0 of Some st \<Rightarrow> st | None \<Rightarrow> 10)"

definition maxterms_of :: "'u env \<Rightarrow> kwargs \<Rightarrow> 'u mp_state \<Rightarrow> int" where
  "maxterms_of env kwargs s =
     (case kw_maxterms kwargs of Some m \<Rightarrow> m | None \<Rightarrow> dps_at env (prec s) * 10)"

definition method_of :: "kwargs \<Rightarrow> string list" where
  "method_of kwargs = split_plus (case kw_method kwargs of Some m \<Rightarrow> m | None \<Rightarrow> ''r+s'')"

definition elevated :: "kwargs \<Rightarrow> 'u mp_state \<Rightarrow> 'u mp_state" where
  "elevated kwargs s =
     s\<lparr>prec := (if TRY_RICHARDSON (initial_vars (method_of kwargs))
                   \<or> TRY_SHANKS (initial_vars (method_of kwargs))
                then prec s * 4 else prec s + 30)\<rparr>"

definition first_batch :: "'u updatefun \<Rightarrow> kwargs \<Rightarrow> ('u, rat list) comp" where
  "first_batch update kwargs s = update [] [0..first_step kwargs - 1] (elevated kwargs s)"

text \<open>
  Collaborators for evaluation. The state counts the calls of the quadrature routine, which
  reports the integral 100 with error 0; the derivative generator reports every derivative
  as 0; the Bernoulli numbers are tabulated up to \<open>B\<^sub>1\<^sub>2\<close>. The general theorems below hold
  for every environment.
\<close>

definition bernoulli_table :: "nat \<Rightarrow> rat" where
  "bernoulli_table n =
     (if n < 13 then [1, - 1 / 2, 1 / 6, 0, - 1 / 30, 0, 1 / 42, 0, - 1 / 30, 0, 5 / 66, 0, - 691 / 2730] ! n
      else 0)"

definition demo_env :: "nat env" where
  "demo_env =
     \<lparr>eps_at = (\<lambda>p. 1 / 2 ^ nat (p - 1)),
      dps_at = (\<lambda>p. max 1 (\<lfloor>of_int p * 10000 / 33219 + 1 / 2 :: rat\<rfloor> - 1)),
      getrandbits10 = mt_getrandbits10,
      bernoulli = bernoulli_table,
      quad = (\<lambda>f interval st. Some (Inr (100, 0), st\<lparr>world := world st + 1\<rparr>)),
      diffs = (\<lambda>f x k. ret (Some 0))\<rparr>"

definition st0 :: "nat mp_state" where
  "st0 = \<lparr>prec = 53, world = 0\<rparr>"

definition alt_harmonic :: "nat termfun" where
  "alt_harmonic k = lift (mpf_div ((- 1) ^ nat (\<lfloor>k\<rfloor> + 1)) k)"

definition geometric :: "nat termfun" where
  "geometric k = ret (1 / 2 ^ nat \<lfloor>k\<rfloor>)"

definition two_pow :: "nat termfun" where
  "two_pow k = ret (if 0 \<le> k then 2 ^ nat \<lfloor>k\<rfloor> else 1 / 2 ^ nat \<lfloor>- k\<rfloor>)"



section \<open>Properties\<close>

subsection \<open>Shape of the deterministic epsilon table\<close>

lemma tri_Nil: "tri []" by (simp add: tri_def)

lemma tri_snoc: "tri t \<Longrightarrow> length row = length t + 1 \<Longrightarrow> tri (t @ [row])"
  by (auto simp: tri_def nth_append less_Suc_eq)

lemma tri_butlast: "tri t \<Longrightarrow> tri (butlast t)"
  by (auto simp: tri_def nth_butlast)

lemma shanks_ab_ok:
  assumes "tri T" "length T = i" "Suc i < length seq" "j \<le> i" "length row = j"
  shows "\<exists>a b. shanks_ab seq T i row j = Inr (a, b)"
proof (cases "j = 0")
  case True
  then show ?thesis using assms by (simp add: shanks_ab_def ebind_def py_nth_def)
next
  case False
  then have i: "i - 1 < length T" using assms by auto
  then have len: "length (T ! (i - 1)) = i" using assms(1,2) False by (auto simp: tri_def)
  have r: "py_nth T (i - 1) = Inr (T ! (i - 1))" using i by (simp add: py_nth_def)
  have c1: "py_nth (T ! (i - 1)) (j - 1) = Inr (T ! (i - 1) ! (j - 1))"
    using len False assms(4) by (simp add: py_nth_def)
  have c2: "py_nth (T ! (i - 1)) (j - 2) = Inr (T ! (i - 1) ! (j - 2))"
    using len False assms(4) by (simp add: py_nth_def)
  have c3: "py_nth row (j - 1) = Inr (row ! (j - 1))"
    using False assms(5) by (simp add: py_nth_def)
  have c4: "py_nth seq i = Inr (seq ! i)"
    using assms(3) by (simp add: py_nth_def)
  show ?thesis using False r c1 c2 c3 c4
    by (simp add: shanks_ab_def ebind_def)
qed

lemma shanks_row_det:
  assumes "tri T" "length T = i" "Suc i < length seq"
  shows "length row = j0 \<Longrightarrow> j0 \<le> Suc i \<Longrightarrow>
     shanks_row eps draw False seq T i [j0..<Suc i] row cnt = RowZero \<or>
     (\<exists>r. shanks_row eps draw False seq T i [j0..<Suc i] row cnt = RowDone r cnt \<and> length r = Suc i)"
proof (induction "Suc i - j0" arbitrary: j0 row)
  case 0
  then show ?case by simp
next
  case (Suc k)
  then have lt: "j0 \<le> i" by simp
  obtain a b where ab: "shanks_ab seq T i row j0 = Inr (a, b)"
    using shanks_ab_ok [OF assms lt Suc.prems(1)] by blast
  have up: "[j0..<Suc i] = j0 # [Suc j0..<Suc i]"
    using lt by (simp add: upt_conv_Cons)
  show ?case
  proof (cases "b = 0")
    case True
    then show ?thesis by (simp add: up ab del: upt_Suc)
  next
    case False
    have "k = Suc i - Suc j0" using Suc.hyps(2) by simp
    from Suc.hyps(1) [OF this, of "row @ [a + 1 / b]"] Suc.prems lt
    show ?thesis using False by (simp add: up ab mpf_div_def del: upt_Suc)
  qed
qed


lemma shanks_rows_det_shape:
  "tri T \<Longrightarrow> length T = m \<Longrightarrow> m \<le> n \<Longrightarrow> n < length seq \<Longrightarrow> even n \<Longrightarrow>
     \<exists>R. shanks_rows eps draw False seq [m..<n] T cnt = Inr R \<and> tri R \<and> even (length R)"
proof (induction "n - m" arbitrary: m T)
  case 0
  then show ?case by simp
next
  case (Suc k)
  then have lt: "m < n" by simp
  then have up: "[m..<n] = m # [Suc m..<n]" by (simp add: upt_conv_Cons)
  have sm: "Suc m < length seq" using lt Suc.prems by simp
  from shanks_row_det [OF Suc.prems(1,2) sm, of "[]" 0 eps draw cnt]
  consider (zero) "shanks_row eps draw False seq T m [0..<Suc m] [] cnt = RowZero"
    | (fin) r where "shanks_row eps draw False seq T m [0..<Suc m] [] cnt = RowDone r cnt"
        "length r = Suc m"
    by auto
  then show ?case
  proof cases
    case zero
    then show ?thesis using Suc.prems tri_butlast [OF Suc.prems(1)]
      by (auto simp: up simp del: upt_Suc)
  next
    case fin
    have t: "tri (T @ [r])" using Suc.prems fin by (simp add: tri_snoc)
    have "k = n - Suc m" using Suc.hyps(2) by simp
    from Suc.hyps(1) [OF this t] Suc.prems lt
    show ?thesis using fin by (simp add: up del: upt_Suc)
  qed
qed

lemma shanks_scratch: "2 \<le> length seq \<Longrightarrow>
  shanks eps rnd seq None rand = shanks_rows eps (rnd 0) rand seq [0..<stop_of seq] [] 0"
  by (simp add: shanks_def stop_of_def Let_def)

lemma shanks_extend: "2 \<le> length seq \<Longrightarrow>
  shanks eps rnd seq (Some T) rand = shanks_rows eps (rnd (length T)) rand seq [length T..<stop_of seq] T 0"
  by (simp add: shanks_def stop_of_def Let_def)

lemma stop_of_even: "even (stop_of seq)"
  by (auto simp: stop_of_def)

lemma stop_of_less: "seq \<noteq> [] \<Longrightarrow> stop_of seq < length seq"
  by (auto simp: stop_of_def)











text \<open>
  Claim C4, as amended. For every sequence of length at least 2, \<^verbatim>\<open>shanks\<close> in deterministic
  mode and without a table returns a table (it raises nothing) with an even number of
  rows, row \<open>i\<close> holding \<open>i + 1\<close> entries. So the last row, when there is one, has even
  length: its last entry sits at an odd column index, which is an estimate column.
\<close>

theorem shanks_last_row_even:
  assumes "2 \<le> length seq"
  shows "\<exists>R. shanks eps rnd seq None False = Inr R \<and> even (length R)
            \<and> (\<forall>i<length R. length (R ! i) = i + 1)
            \<and> (R \<noteq> [] \<longrightarrow> even (length (last R)))"
proof -
  have ne: "seq \<noteq> []" using assms by auto
  from shanks_rows_det_shape [OF tri_Nil _ _ stop_of_less [OF ne] stop_of_even, of 0 eps "rnd 0" 0]
  obtain R where R: "shanks_rows eps (rnd 0) False seq [0..<stop_of seq] [] 0 = Inr R"
    "tri R" "even (length R)" by auto
  have "even (length (last R))" if "R \<noteq> []"
  proof -
    have "length (last R) = length R" using that R(2)
      by (simp add: last_conv_nth tri_def)
    then show ?thesis using R(3) by simp
  qed
  then show ?thesis using R assms by (auto simp: shanks_scratch tri_def)
qed


theorem shanks_last_row_even_witness:
  "2 \<le> length [0, 1, 3 :: rat] \<and>
   (\<exists>R. shanks eps53 mt_getrandbits10 [0, 1, 3] None False = Inr R \<and> even (length R)
      \<and> (\<forall>i<length R. length (R ! i) = i + 1)
      \<and> (R \<noteq> [] \<longrightarrow> even (length (last R))))"
  using shanks_last_row_even [of "[0, 1, 3 :: rat]" eps53 mt_getrandbits10] by simp

text \<open>
  Claim C4 as stated fails: on the exactly geometric sequence of the docstring the table
  is \<open>[[4], [8, 1]]\<close>, whose last row has length 2.
\<close>

theorem shanks_last_row_odd_counterexample:
  "shanks eps53 mt_getrandbits10 [1/2, 3/4, 7/8, 15/16, 31/32] None False = Inr [[4], [8, 1]]
   \<and> \<not> odd (length (last [[4], [8, 1 :: rat]]))"
  by (simp add: shanks_def shanks_ab_def ebind_def py_nth_def mpf_div_def upt_rec)

subsection \<open>Extending a table\<close>






subsection \<open>Zero denominators in randomized mode\<close>

lemma shanks_zero_draw:
  assumes "T \<noteq> []" "length T < stop_of seq" "seq ! Suc (length T) = seq ! length T"
    "rnd (length T) 0 = 0"
  shows "shanks eps rnd seq (Some T) True = Inl ZeroDivisionError"
proof -
  let ?m = "length T"
  have s: "?m < length seq" "Suc ?m < length seq" "2 \<le> length seq"
    using assms(2) by (auto simp: stop_of_def split: if_splits)
  have up: "[?m..<stop_of seq] = ?m # [Suc ?m..<stop_of seq]"
    using assms(2) by (simp add: upt_conv_Cons)
  have ab: "shanks_ab seq T ?m [] 0 = Inr (0, 0)"
    using s assms(3) by (simp add: shanks_ab_def ebind_def py_nth_def)
  have "shanks_row eps (rnd ?m) True seq T ?m [0..<Suc ?m] [] 0 = RowRaise ZeroDivisionError"
    using assms(4) by (simp add: upt_conv_Cons ab mpf_div_def del: upt_Suc)
  then show ?thesis using s
    by (simp add: shanks_extend up del: upt_Suc)
qed


lemma shanks_row_rand:
  assumes "tri T" "length T = i" "Suc i < length seq" "draw k = 0"
  shows "length row = j0 \<Longrightarrow> j0 \<le> Suc i \<Longrightarrow> cnt \<le> k \<Longrightarrow>
     shanks_row eps draw True seq T i [j0..<Suc i] row cnt = RowRaise ZeroDivisionError \<or>
     (\<exists>r c. shanks_row eps draw True seq T i [j0..<Suc i] row cnt = RowDone r c
        \<and> length r = Suc i \<and> cnt \<le> c \<and> c \<le> k)"
proof (induction "Suc i - j0" arbitrary: j0 row cnt)
  case 0
  then show ?case by simp
next
  case (Suc d)
  then have lt: "j0 \<le> i" by simp
  obtain a b where ab: "shanks_ab seq T i row j0 = Inr (a, b)"
    using shanks_ab_ok [OF assms(1,2,3) lt Suc.prems(1)] by blast
  have up: "[j0..<Suc i] = j0 # [Suc j0..<Suc i]"
    using lt by (simp add: upt_conv_Cons)
  have d: "d = Suc i - Suc j0" using Suc.hyps(2) by simp
  show ?case
  proof (cases "b = 0")
    case False
    from Suc.hyps(1) [OF d, of "row @ [a + 1 / b]" cnt] Suc.prems lt
    show ?thesis using False by (simp add: up ab mpf_div_def del: upt_Suc)
  next
    case True
    show ?thesis
    proof (cases "of_nat (draw cnt) * eps = 0")
      case z: True
      then show ?thesis using True by (simp add: up ab mpf_div_def del: upt_Suc)
    next
      case nz: False
      then have "draw cnt \<noteq> 0" by (cases "draw cnt = 0") simp_all
      then have "cnt \<noteq> k" using assms(4) by auto
      then have c: "Suc cnt \<le> k" using Suc.prems(3) by simp
      from Suc.hyps(1) [OF d, of "row @ [a + 1 / (of_nat (draw cnt) * eps)]" "Suc cnt"] Suc.prems lt c
      show ?thesis using True nz by (auto simp: up ab mpf_div_def simp del: upt_Suc)
    qed
  qed
qed

lemma shanks_row_rand_const:
  assumes "tri T" "length T = i" "Suc i < length seq" "draw k = 0" "seq ! Suc i = seq ! i" "cnt \<le> k"
  shows "shanks_row eps draw True seq T i [0..<Suc i] [] cnt = RowRaise ZeroDivisionError \<or>
     (\<exists>r c. shanks_row eps draw True seq T i [0..<Suc i] [] cnt = RowDone r c
        \<and> length r = Suc i \<and> cnt < c \<and> c \<le> k)"
proof -
  have ab: "shanks_ab seq T i [] 0 = Inr (0, 0)"
    using assms(3,5) by (simp add: shanks_ab_def ebind_def py_nth_def)
  have up: "[0..<Suc i] = 0 # [Suc 0..<Suc i]" by (simp add: upt_conv_Cons)
  show ?thesis
  proof (cases "of_nat (draw cnt) * eps = 0")
    case True
    then show ?thesis by (simp add: up ab mpf_div_def del: upt_Suc)
  next
    case False
    then have "draw cnt \<noteq> 0" by (cases "draw cnt = 0") simp_all
    then have "cnt \<noteq> k" using assms(4) by auto
    then have c: "Suc cnt \<le> k" using assms(6) by simp
    from shanks_row_rand [where draw = draw and k = k, OF assms(1-4),
        of "[0 + 1 / (of_nat (draw cnt) * eps)]" "Suc 0" "Suc cnt" eps] c
    show ?thesis using False by (auto simp: up ab mpf_div_def simp del: upt_Suc)
  qed
qed

lemma shanks_rows_rand_const:
  assumes "draw k = 0" "\<forall>i<n. seq ! Suc i = seq ! i" "n < length seq"
  shows "tri T \<Longrightarrow> length T = m \<Longrightarrow> cnt \<le> k \<Longrightarrow> k - cnt < n - m \<Longrightarrow>
     shanks_rows eps draw True seq [m..<n] T cnt = Inl ZeroDivisionError"
proof (induction "n - m" arbitrary: m T cnt)
  case 0
  then show ?case by simp
next
  case (Suc d)
  then have lt: "m < n" by simp
  then have up: "[m..<n] = m # [Suc m..<n]" by (simp add: upt_conv_Cons)
  have sm: "Suc m < length seq" using lt assms(3) by simp
  have eq: "seq ! Suc m = seq ! m" using assms(2) lt by simp
  from shanks_row_rand_const [where draw = draw and k = k,
      OF Suc.prems(1,2) sm assms(1) eq Suc.prems(3), of eps]
  consider (raise) "shanks_row eps draw True seq T m [0..<Suc m] [] cnt = RowRaise ZeroDivisionError"
    | (fin) r c where "shanks_row eps draw True seq T m [0..<Suc m] [] cnt = RowDone r c"
        "length r = Suc m" "cnt < c" "c \<le> k"
    by auto
  then show ?case
  proof cases
    case raise
    then show ?thesis by (simp add: up del: upt_Suc)
  next
    case fin
    have t: "tri (T @ [r])" using Suc.prems fin by (simp add: tri_snoc)
    have d: "d = n - Suc m" using Suc.hyps(2) by simp
    have k: "k - c < n - Suc m" using Suc.prems(4) fin(3,4) lt by linarith
    from Suc.hyps(1) [OF d t _ fin(4) k] Suc.prems(2)
    show ?thesis using fin(1) by (simp add: up del: upt_Suc)
  qed
qed

lemma shanks_scratch_zero_draw:
  assumes "rnd 0 k = 0" "k < stop_of seq" "\<forall>i<stop_of seq. seq ! Suc i = seq ! i"
  shows "shanks eps rnd seq None True = Inl ZeroDivisionError"
proof -
  have len: "2 \<le> length seq" "stop_of seq < length seq"
    using assms(2) by (auto simp: stop_of_def split: if_splits)
  show ?thesis
    unfolding shanks_scratch [OF len(1)]
    by (rule shanks_rows_rand_const [where draw = "rnd 0" and k = k, OF assms(1,3) len(2) tri_Nil])
      (use assms(2) in simp_all)
qed

lemma mt_seed0_413: "mt_getrandbits10 0 413 = 0"
  by (simp add: mt_getrandbits10_def mt_seed0_def)

text \<open>
  Claim C5 fails on the code: the replacement \<^verbatim>\<open>rnd.getrandbits(10)*eps\<close> is zero when
  the draw is 0, and \<^verbatim>\<open>one/b\<close> then raises ZeroDivisionError. On a constant sequence
  every row draws at least once, and the draw of index 413 after \<^verbatim>\<open>seed(0)\<close> is 0, so a
  constant sequence of 416 elements raises without a table. The first draw after
  \<^verbatim>\<open>seed(1514)\<close> is 0 as well, so extending a table of 1514 rows with a sequence whose
  elements 1514 and 1515 are equal raises.
\<close>

theorem shanks_randomized_zero_division:
  "shanks eps53 mt_getrandbits10 (replicate 416 1) None True = Inl ZeroDivisionError
   \<and> shanks eps53 mt_getrandbits10 (replicate 1517 1)
       (Some (map (\<lambda>i. replicate (Suc i) 1) [0..<1514])) True = Inl ZeroDivisionError"
proof
  show "shanks eps53 mt_getrandbits10 (replicate 416 1) None True = Inl ZeroDivisionError"
    by (rule shanks_scratch_zero_draw [where k = 413]) (simp_all add: stop_of_def mt_seed0_413)
  show "shanks eps53 mt_getrandbits10 (replicate 1517 1)
       (Some (map (\<lambda>i. replicate (Suc i) 1) [0..<1514])) True = Inl ZeroDivisionError"
    by (rule shanks_zero_draw) (simp_all add: stop_of_def mt_getrandbits10_def)
qed

subsection \<open>The Richardson weights\<close>










lemma richardson_examples:
  "richardson [1, 3/2, 11/6, 25/12, 137/60, 49/20, 363/140 :: rat] = Inr (191 / 60, 9)"
  "richardson [1, 1/2, 5/6, 7/12, 47/60, 37/60, 319/420 :: rat] = Inr (11 / 15, 2)"
  "richardson [1, 1/2 :: rat] = Inl AssertionError"
  by (simp_all add: richardson_def richardson_seq_def ebind_def py_nth_end_def py_nth_def
      mpf_div_def Let_def upt_rec)

subsection \<open>Computations and the precision register\<close>

lemma cbind_get_prec: "cbind get_prec f s = f (prec s) s"
  by (simp add: cbind_def get_prec_def)

lemma cbind_get_eps: "cbind (get_eps env) f s = f (eps_at env (prec s)) s"
  by (simp add: cbind_def get_eps_def)


lemma cbind_raise: "cbind (raise e) f = raise e"
  by (simp add: cbind_def raise_def)

lemma cbind_lift: "cbind (lift r) f = (case r of Inl e \<Rightarrow> raise e | Inr x \<Rightarrow> f x)"
  by (auto simp: cbind_def lift_def raise_def split: sum.splits)

lemma cbind_set_prec: "cbind (set_prec p) f s = f () (s\<lparr>prec := p\<rparr>)"
  by (simp add: cbind_def set_prec_def)

lemma try_finally_set_prec:
  "try_finally m (set_prec p) s = Some (r, s') \<Longrightarrow> prec s' = p"
  by (auto simp: try_finally_def set_prec_def split: option.splits prod.splits)

lemma cbind_pure_state:
  "cbind m (\<lambda>x. ret (g x)) s = Some (r, s') \<Longrightarrow> \<exists>r0. m s = Some (r0, s')"
  by (auto simp: cbind_def ret_def split: option.splits prod.splits sum.splits)

lemmas comp_simps = cbind_def ret_def raise_def lift_def get_prec_def set_prec_def get_eps_def
  try_finally_def and_then_def

lemmas eval_simps = comp_simps ebind_def py_nth_def py_nth_end_def mpf_div_def
  adaptive_extrapolation_def iteration_def direct_stage_def next_step_def direct_check_def
  richardson_stage_def shanks_stage_def euler_maclaurin_stage_def initial_vars_def
  steps_iter_def method_in_direct_def ae_minus_one_def nsum_update_def nsum_emfun_def py_int_def
  sumem_def zeros_def endpoint_correction_def tail_integral_def
  demo_env_def st0_def Let_def

lemma extrapolation_loop_numeral:
  "extrapolation_loop env update emfun tol maxterms steps (numeral n) v =
     (if index v \<ge> maxterms then ret (best v)
      else cbind (iteration env update emfun tol steps v) (\<lambda>out.
             case out of
               Return x \<Rightarrow> ret x
             | Continue v' \<Rightarrow> extrapolation_loop env update emfun tol maxterms steps (pred_numeral n) v'))"
  by (simp add: numeral_eq_Suc)

lemma sumem_loop_numeral:
  "sumem_loop env tol reject adiffs bdiffs (numeral n) k (s, err, prev) =
     cbind (adiffs k) (\<lambda>nxa. case nxa of
       None \<Rightarrow> ret (s, err)
     | Some da \<Rightarrow>
     cbind (bdiffs k) (\<lambda>nxb. case nxb of
       None \<Rightarrow> ret (s, err)
     | Some db \<Rightarrow>
         if odd k then
           let term = (db - da) * bernoulli env (k + 1) / fact (k + 1);
               mag = \<bar>term\<bar>
           in if k > 4 \<and> mag < tol then ret (s + term, err)
              else if k > 4 then
                cbind (lift (mpf_div \<bar>prev\<bar> mag)) (\<lambda>q.
                  if q < reject then ret (s, err + mag)
                  else sumem_loop env tol reject adiffs bdiffs (pred_numeral n) (k + 1) (s + term, err, term))
              else sumem_loop env tol reject adiffs bdiffs (pred_numeral n) (k + 1) (s + term, err, term)
         else sumem_loop env tol reject adiffs bdiffs (pred_numeral n) (k + 1) (s, err, prev)))"
  by (simp only: numeral_eq_Suc [of n] sumem_loop.simps)

text \<open>
  Claim C3. Whenever \<^verbatim>\<open>adaptive_extrapolation\<close> or \<^verbatim>\<open>sumem\<close> returns a value or propagates
  an exception, whatever the caller-supplied functions did to the state, \<^verbatim>\<open>mp.prec\<close> has
  the value it had at entry.
\<close>

theorem precision_restored:
  "(adaptive_extrapolation env update emfun kwargs fuel s = Some (r, s') \<longrightarrow> prec s' = prec s) \<and>
   (sumem env f interval tol reject integral adiffs bdiffs err fuel' s = Some (r', s'') \<longrightarrow> prec s'' = prec s)"
proof (intro conjI impI)
  assume "adaptive_extrapolation env update emfun kwargs fuel s = Some (r, s')"
  then show "prec s' = prec s"
    by (auto simp: adaptive_extrapolation_def cbind_get_prec cbind_get_eps Let_def method_in_direct_def
        dest: try_finally_set_prec)
next
  assume a: "sumem env f interval tol reject integral adiffs bdiffs err fuel' s = Some (r', s'')"
  show "prec s'' = prec s"
    using a unfolding sumem_def cbind_get_eps cbind_get_prec Let_def
    by (auto simp: case_prod_unfold dest!: cbind_pure_state try_finally_set_prec)
qed


theorem precision_restored_witness:
  "adaptive_extrapolation demo_env (\<lambda>p ks st. Some (Inl (UserError 1), st\<lparr>prec := 7\<rparr>)) None
     \<lparr>kw_tol = None, kw_maxterms = None, kw_method = None, kw_steps = None\<rparr> 20 st0
     = Some (Inl (UserError 1), st0)
   \<and> sumem demo_env geometric (Some 1, None) (Some (1 / 1000)) 10 None None None True 20 st0
     = Some (Inr (401 / 4, Some 0), \<lparr>prec = 53, world = 1\<rparr>)
   \<and> prec st0 = 53"
  using precision_restored [where env = demo_env
      and update = "\<lambda>p ks st. Some (Inl (UserError 1), st\<lparr>prec := 7\<rparr>)" and emfun = None
      and kwargs = "\<lparr>kw_tol = None, kw_maxterms = None, kw_method = None, kw_steps = None\<rparr>"
      and fuel = 20 and s = st0 and r = "Inl (UserError 1)" and ?s' = st0 and f = geometric
      and interval = "(Some 1, None)" and tol = "Some (1 / 1000)" and reject = 10
      and integral = None and adiffs = None and bdiffs = None and err = True and ?fuel' = 20
      and ?r' = "Inr (401 / 4, Some 0)" and ?s'' = "\<lparr>prec = 53, world = 1\<rparr>"]
  by (simp add: eval_simps geometric_def extrapolation_loop_numeral sumem_loop_numeral
      bernoulli_table_def)

subsection \<open>Truncation of the Euler-Maclaurin correction series\<close>









subsection \<open>Method tags\<close>

lemma split_plus_not_Nil: "split_plus m \<noteq> []"
  by (induction m) (auto split: list.splits)

lemma split_plus_no_plus: "CHR ''+'' \<notin> set t \<Longrightarrow> split_plus t = [t]"
  by (induction t) auto

lemma split_plus_append:
  "CHR ''+'' \<notin> set t \<Longrightarrow> split_plus (m @ CHR ''+'' # t) = split_plus m @ [t]"
proof (induction m)
  case Nil
  then show ?case by (simp add: split_plus_no_plus)
next
  case (Cons c m)
  then show ?case using split_plus_not_Nil [of m]
    by (cases "split_plus m") auto
qed

lemma tag_mem:
  "set m \<inter> known_tags = set m' \<inter> known_tags \<Longrightarrow> x \<in> known_tags \<Longrightarrow> x \<in> set m \<longleftrightarrow> x \<in> set m'"
  by blast

lemma known_tags_mem:
  "''r'' \<in> known_tags" "''richardson'' \<in> known_tags" "''s'' \<in> known_tags"
  "''shanks'' \<in> known_tags" "''e'' \<in> known_tags" "''euler-maclaurin'' \<in> known_tags"
  unfolding known_tags_def by blast+

lemma initial_vars_cong:
  assumes "set method \<inter> known_tags = set method' \<inter> known_tags"
  shows "initial_vars method = initial_vars method'"
  unfolding initial_vars_def
  by (simp only: tag_mem [OF assms known_tags_mem(1)] tag_mem [OF assms known_tags_mem(2)]
      tag_mem [OF assms known_tags_mem(3)] tag_mem [OF assms known_tags_mem(4)]
      tag_mem [OF assms known_tags_mem(5)] tag_mem [OF assms known_tags_mem(6)])

lemma direct_unknown: "''direct'' \<notin> known_tags"
  by (simp add: known_tags_def)

text \<open>
  Claim C9, as amended. A method tag that is not one of \<^verbatim>\<open>r\<close>, \<^verbatim>\<open>richardson\<close>, \<^verbatim>\<open>s\<close>,
  \<^verbatim>\<open>shanks\<close>, \<^verbatim>\<open>e\<close>, \<^verbatim>\<open>euler-maclaurin\<close> raises nothing and is ignored: appending it to a
  method string changes nothing, and a method string that consists of it alone runs as
  \<^verbatim>\<open>'direct'\<close> does.
\<close>

theorem unknown_method_tag_ignored:
  assumes "t \<notin> known_tags" "CHR ''+'' \<notin> set t"
  shows "adaptive_extrapolation env update emfun (kwargs\<lparr>kw_method := Some (m @ CHR ''+'' # t)\<rparr>) fuel
           = adaptive_extrapolation env update emfun (kwargs\<lparr>kw_method := Some m\<rparr>) fuel
         \<and> adaptive_extrapolation env update emfun (kwargs\<lparr>kw_method := Some t\<rparr>) fuel
           = adaptive_extrapolation env update emfun (kwargs\<lparr>kw_method := Some ''direct''\<rparr>) fuel"
proof -
  have 1: "initial_vars (split_plus (m @ CHR ''+'' # t)) = initial_vars (split_plus m)"
    using assms by (intro initial_vars_cong) (auto simp: split_plus_append)
  have "split_plus ''direct'' = [''direct'']" by (rule split_plus_no_plus) simp
  then have 2: "initial_vars (split_plus t) = initial_vars (split_plus ''direct'')"
    using assms direct_unknown by (intro initial_vars_cong) (auto simp: split_plus_no_plus)
  show ?thesis
    unfolding adaptive_extrapolation_def Let_def method_in_direct_def by (simp add: 1 2)
qed

theorem unknown_method_tag_ignored_witness:
  "''foo'' \<notin> known_tags \<and> CHR ''+'' \<notin> set ''foo''
   \<and> adaptive_extrapolation demo_env (nsum_update geometric 1) None
        \<lparr>kw_tol = None, kw_maxterms = None, kw_method = Some ''r+foo'', kw_steps = None\<rparr> 20
     = adaptive_extrapolation demo_env (nsum_update geometric 1) None
        \<lparr>kw_tol = None, kw_maxterms = None, kw_method = Some ''r'', kw_steps = None\<rparr> 20
   \<and> adaptive_extrapolation demo_env (nsum_update geometric 1) None
        \<lparr>kw_tol = None, kw_maxterms = None, kw_method = Some ''foo'', kw_steps = None\<rparr> 20
     = adaptive_extrapolation demo_env (nsum_update geometric 1) None
        \<lparr>kw_tol = None, kw_maxterms = None, kw_method = Some ''direct'', kw_steps = None\<rparr> 20"
  using unknown_method_tag_ignored [where t = "''foo''" and env = demo_env
      and update = "nsum_update geometric 1" and emfun = None
      and kwargs = "\<lparr>kw_tol = None, kw_maxterms = None, kw_method = None, kw_steps = None\<rparr>"
      and m = "''r''" and fuel = 20]
  by (simp add: known_tags_def)

text \<open>
  Claim C9 as stated fails: with the unknown method \<^verbatim>\<open>'foo'\<close> the terms are generated and
  the sum is returned; no error is raised.
\<close>

theorem unknown_method_tag_counterexample:
  "nsum demo_env geometric (Fin 1, PosInf)
     \<lparr>kw_tol = Some (1 / 4), kw_maxterms = Some 100, kw_method = Some ''foo'', kw_steps = Some [3]\<rparr>
     20 st0
   = Some (Inr (7 / 8), \<lparr>prec = 53, world = 0\<rparr>)"
  by (simp add: eval_simps geometric_def upto.simps extrapolation_loop_numeral)

subsection \<open>The first batch of the orchestrator\<close>

lemma try_finally_set_prec_eq:
  "try_finally m (set_prec p) s =
     (case m s of None \<Rightarrow> None | Some (r, s1) \<Rightarrow> Some (r, s1\<lparr>prec := p\<rparr>))"
  by (simp add: try_finally_def set_prec_def split: option.splits prod.splits)

lemma adaptive_extrapolation_unfold:
  "adaptive_extrapolation env update emfun kwargs fuel s =
     (case extrapolation_loop env update emfun
             (case kw_tol kwargs of Some t \<Rightarrow> t | None \<Rightarrow> eps_at env (prec s) / 2 ^ 10)
             (maxterms_of env kwargs s) (steps_iter (kw_steps kwargs)) fuel
             (initial_vars (method_of kwargs)) (elevated kwargs s) of
        None \<Rightarrow> None
      | Some (r, s1) \<Rightarrow> Some (r, s1\<lparr>prec := prec s\<rparr>))"
  unfolding adaptive_extrapolation_def method_in_direct_def Let_def cbind_get_eps cbind_get_prec
  by (simp add: try_finally_set_prec_eq cbind_set_prec maxterms_of_def method_of_def elevated_def)

lemma and_then_Inl: "m s = Some (Inl e, s1) \<Longrightarrow> and_then m f s = Some (Inl e, s1)"
  by (simp add: and_then_def cbind_def)

lemma and_then_Inr:
  "and_then m f s = Some (Inr out, s3) \<Longrightarrow> \<exists>out' s2. m s = Some (Inr out', s2)"
  by (auto simp: and_then_def cbind_def split: option.splits sum.splits)

lemma direct_check_short: "length p < 2 \<Longrightarrow> direct_check tol v p = raise IndexError"
  by (cases p) (auto simp: direct_check_def py_nth_end_def cbind_lift Let_def)

lemma direct_stage_first:
  "direct_stage update tol (steps_iter (kw_steps kwargs)) (initial_vars method) =
     cbind (update [] [0..first_step kwargs - 1])
       (direct_check tol (next_step (steps_iter (kw_steps kwargs)) (initial_vars method)))"
  by (simp add: direct_stage_def next_step_def first_step_def initial_vars_def Let_def
      split: option.splits)

lemma direct_stage_first_short:
  assumes "update [] [0..first_step kwargs - 1] s1 = Some (Inr p, s2)" "length p < 2"
  shows "direct_stage update tol (steps_iter (kw_steps kwargs)) (initial_vars method) s1
           = Some (Inl IndexError, s2)"
  unfolding direct_stage_first using assms
  by (simp add: cbind_def direct_check_short raise_def)

lemma direct_stage_first_Inr:
  assumes "direct_stage update tol (steps_iter (kw_steps kwargs)) (initial_vars method) s1
           = Some (Inr out, s3)"
  shows "\<exists>p s2. update [] [0..first_step kwargs - 1] s1 = Some (Inr p, s2) \<and> 2 \<le> length p"
proof -
  from assms obtain p s2 where u: "update [] [0..first_step kwargs - 1] s1 = Some (Inr p, s2)"
    unfolding direct_stage_first
    by (auto simp: cbind_def split: option.splits sum.splits)
  have "\<not> length p < 2"
    using direct_stage_first_short [where update = update and kwargs = kwargs, OF u, of tol "method"]
      assms by auto
  then show ?thesis using u by auto
qed

lemma iteration_first_short:
  assumes "update [] [0..first_step kwargs - 1] s1 = Some (Inr p, s2)" "length p < 2"
  shows "iteration env update emfun tol (steps_iter (kw_steps kwargs)) (initial_vars method) s1
           = Some (Inl IndexError, s2)"
  unfolding iteration_def
  by (intro and_then_Inl)
    (rule direct_stage_first_short [where update = update and kwargs = kwargs, OF assms])

lemma iteration_first_Inr:
  assumes "iteration env update emfun tol (steps_iter (kw_steps kwargs)) (initial_vars method) s1
           = Some (Inr out, s3)"
  shows "\<exists>p s2. update [] [0..first_step kwargs - 1] s1 = Some (Inr p, s2) \<and> 2 \<le> length p"
  using assms unfolding iteration_def
  by (blast dest: and_then_Inr direct_stage_first_Inr)

lemma loop_Suc_Inl:
  assumes "\<not> maxterms \<le> index v" "iteration env update emfun tol steps v s = Some (Inl e, s1)"
  shows "extrapolation_loop env update emfun tol maxterms steps (Suc fuel) v s = Some (Inl e, s1)"
  using assms by (simp add: cbind_def)

lemma loop_Suc_Inr:
  assumes "\<not> maxterms \<le> index v"
    "extrapolation_loop env update emfun tol maxterms steps (Suc fuel) v s = Some (Inr x, s1)"
  shows "\<exists>out s2. iteration env update emfun tol steps v s = Some (Inr out, s2)"
  using assms by (auto simp: cbind_def split: option.splits sum.splits)

lemma loop_break:
  assumes "maxterms \<le> index v"
  shows "extrapolation_loop env update emfun tol maxterms steps (Suc fuel) v s = Some (Inr (best v), s)"
  using assms by (simp add: ret_def)

lemma initial_index: "index (initial_vars method) = 0" "best (initial_vars method) = 0"
  by (simp_all add: initial_vars_def)

text \<open>
  Claim C10, as amended. If the term budget is positive and the first call of \<^verbatim>\<open>update\<close>
  returns fewer than 2 partial sums, \<^verbatim>\<open>adaptive_extrapolation\<close> raises IndexError at the
  direct-error check (and the precision is restored). Every run that returns normally either
  had a term budget \<open>maxterms \<le> 0\<close>, in which case no batch was generated and 0 is
  returned, or had a first batch of at least 2 partial sums.
\<close>

theorem short_first_batch:
  "(0 < maxterms_of env kwargs s \<and> first_batch update kwargs s = Some (Inr p, s1) \<and> length p < 2 \<longrightarrow>
      adaptive_extrapolation env update emfun kwargs (Suc fuel) s
        = Some (Inl IndexError, s1\<lparr>prec := prec s\<rparr>))
   \<and> (adaptive_extrapolation env update emfun kwargs fuel' s = Some (Inr x, s') \<longrightarrow>
        (maxterms_of env kwargs s \<le> 0 \<and> x = 0) \<or>
        (\<exists>q s2. first_batch update kwargs s = Some (Inr q, s2) \<and> 2 \<le> length q))"
proof (intro conjI impI)
  let ?tol = "case kw_tol kwargs of Some t \<Rightarrow> t | None \<Rightarrow> eps_at env (prec s) / 2 ^ 10"
  let ?v = "initial_vars (method_of kwargs)"
  assume a: "0 < maxterms_of env kwargs s \<and> first_batch update kwargs s = Some (Inr p, s1) \<and> length p < 2"
  then have u: "update [] [0..first_step kwargs - 1] (elevated kwargs s) = Some (Inr p, s1)"
    and l: "length p < 2" and m: "\<not> maxterms_of env kwargs s \<le> index ?v"
    by (simp_all add: first_batch_def initial_index)
  have "extrapolation_loop env update emfun ?tol (maxterms_of env kwargs s)
          (steps_iter (kw_steps kwargs)) (Suc fuel) ?v (elevated kwargs s) = Some (Inl IndexError, s1)"
    by (rule loop_Suc_Inl
        [OF m iteration_first_short [where update = update and kwargs = kwargs, OF u l]])
  then show "adaptive_extrapolation env update emfun kwargs (Suc fuel) s
        = Some (Inl IndexError, s1\<lparr>prec := prec s\<rparr>)"
    unfolding adaptive_extrapolation_unfold by simp
next
  let ?tol = "case kw_tol kwargs of Some t \<Rightarrow> t | None \<Rightarrow> eps_at env (prec s) / 2 ^ 10"
  let ?v = "initial_vars (method_of kwargs)"
  assume a: "adaptive_extrapolation env update emfun kwargs fuel' s = Some (Inr x, s')"
  then obtain s3 where loop: "extrapolation_loop env update emfun ?tol (maxterms_of env kwargs s)
          (steps_iter (kw_steps kwargs)) fuel' ?v (elevated kwargs s) = Some (Inr x, s3)"
    unfolding adaptive_extrapolation_unfold by (auto split: option.splits)
  show "(maxterms_of env kwargs s \<le> 0 \<and> x = 0) \<or>
        (\<exists>q s2. first_batch update kwargs s = Some (Inr q, s2) \<and> 2 \<le> length q)"
  proof (cases fuel')
    case 0
    then show ?thesis using loop by simp
  next
    case (Suc n)
    show ?thesis
    proof (cases "maxterms_of env kwargs s \<le> 0")
      case True
      then have "maxterms_of env kwargs s \<le> index ?v" by (simp add: initial_index)
      from loop_break [OF this, of env update emfun ?tol "steps_iter (kw_steps kwargs)" n "elevated kwargs s"]
      have "x = 0" using loop Suc by (simp add: initial_index)
      then show ?thesis using True by simp
    next
      case False
      then have m: "\<not> maxterms_of env kwargs s \<le> index ?v" by (simp add: initial_index)
      from loop_Suc_Inr [OF m loop [unfolded Suc]]
      obtain out s2 where "iteration env update emfun ?tol (steps_iter (kw_steps kwargs)) ?v
          (elevated kwargs s) = Some (Inr out, s2)" by blast
      from iteration_first_Inr [OF this]
      show ?thesis unfolding first_batch_def by blast
    qed
  qed
qed


theorem short_first_batch_witness:
  "0 < maxterms_of demo_env
         \<lparr>kw_tol = None, kw_maxterms = None, kw_method = None, kw_steps = Some [1]\<rparr> st0
   \<and> first_batch (nsum_update geometric 1)
         \<lparr>kw_tol = None, kw_maxterms = None, kw_method = None, kw_steps = Some [1]\<rparr> st0
       = Some (Inr [1 / 2], \<lparr>prec = 212, world = 0\<rparr>)
   \<and> length [1 / 2 :: rat] < 2
   \<and> adaptive_extrapolation demo_env (nsum_update geometric 1) None
         \<lparr>kw_tol = None, kw_maxterms = None, kw_method = None, kw_steps = Some [1]\<rparr> 20 st0
       = Some (Inl IndexError, st0)
   \<and> adaptive_extrapolation demo_env (nsum_update geometric 1) None
         \<lparr>kw_tol = Some (1 / 4), kw_maxterms = None, kw_method = None, kw_steps = Some [3]\<rparr> 20 st0
       = Some (Inr (7 / 8), st0)
   \<and> first_batch (nsum_update geometric 1)
         \<lparr>kw_tol = Some (1 / 4), kw_maxterms = None, kw_method = None, kw_steps = Some [3]\<rparr> st0
       = Some (Inr [1 / 2, 3 / 4, 7 / 8], \<lparr>prec = 212, world = 0\<rparr>)"
  using short_first_batch [where env = demo_env and update = "nsum_update geometric 1"
      and emfun = None and s = st0 and fuel = 19 and p = "[1 / 2]"
      and ?s1.0 = "\<lparr>prec = 212, world = 0\<rparr>"
      and kwargs = "\<lparr>kw_tol = None, kw_maxterms = None, kw_method = None, kw_steps = Some [1]\<rparr>"]
    short_first_batch [where env = demo_env and update = "nsum_update geometric 1"
      and emfun = None and s = st0 and ?fuel' = 20 and x = "7 / 8" and ?s' = st0
      and kwargs = "\<lparr>kw_tol = Some (1 / 4), kw_maxterms = None, kw_method = None, kw_steps = Some [3]\<rparr>"]
  by (simp add: eval_simps first_batch_def elevated_def method_of_def maxterms_of_def first_step_def
      geometric_def upto.simps extrapolation_loop_numeral)

text \<open>
  Claim C10 as stated fails in its second part: with \<^verbatim>\<open>maxterms=0\<close> the loop breaks before
  any batch and the run returns 0 normally, although the schedule \<^verbatim>\<open>steps=[1]\<close> would make
  a first batch of one partial sum.
\<close>

theorem no_batch_counterexample:
  "adaptive_extrapolation demo_env (nsum_update geometric 1) None
     \<lparr>kw_tol = None, kw_maxterms = Some 0, kw_method = None, kw_steps = Some [1]\<rparr> 20 st0
     = Some (Inr 0, st0)
   \<and> first_batch (nsum_update geometric 1)
       \<lparr>kw_tol = None, kw_maxterms = Some 0, kw_method = None, kw_steps = Some [1]\<rparr> st0
     = Some (Inr [1 / 2], \<lparr>prec = 212, world = 0\<rparr>)"
  by (simp add: eval_simps first_batch_def elevated_def method_of_def first_step_def
      geometric_def upto.simps extrapolation_loop_numeral)

subsection \<open>The alternating-series detector\<close>

text \<open>
  Claim C8 fails on the code. The detector reads the last two partial sums, not the last two
  terms. For the alternating harmonic series from 1 the first batch of 3 terms is
  \<open>1, -1/2, 1/3\<close>: the last two terms have sign ratio \<open>-1\<close>, but the partial sums
  \<open>1, 1/2, 5/6\<close> are all positive, so Euler-Maclaurin stays enabled and its estimate is
  computed (one call of the quadrature routine, whose value 100 is in the result).
\<close>

theorem euler_maclaurin_not_disabled:
  "alt_harmonic 2 st0 = Some (Inr (- 1 / 2), st0) \<and> alt_harmonic 3 st0 = Some (Inr (1 / 3), st0)
   \<and> nsum demo_env alt_harmonic (Fin 1, PosInf)
        \<lparr>kw_tol = Some (1 / 1000), kw_maxterms = Some 100, kw_method = Some ''e'',
         kw_steps = Some [3]\<rparr> 20 st0
      = Some (Inr (100 + (- 1 / 4) / 2 + 5 / 6), \<lparr>prec = 53, world = 1\<rparr>)"
  by (simp add: eval_simps alt_harmonic_def upto.simps extrapolation_loop_numeral
      sumem_loop_numeral bernoulli_table_def)

subsection \<open>Reduction of the summation range\<close>

text \<open>What \<^verbatim>\<open>nsum\<close> does with a range that starts at \<open>-inf\<close>: the bi-infinite sum is \<open>f(0)\<close>
  plus the sum of \<open>f(-k) + f(k)\<close> from 1, and a range \<open>[-inf, b]\<close> is handed on as
  \<open>[-b, inf]\<close> with the same \<open>f\<close>.\<close>

lemma nsum_bi_infinite:
  "nsum env f (NegInf, PosInf) kwargs fuel =
     cbind (f 0) (\<lambda>f0.
     cbind (nsum env (\<lambda>k. cbind (f (- k)) (\<lambda>x. cbind (f k) (\<lambda>y. ret (x + y))))
              (Fin 1, PosInf) kwargs fuel) (\<lambda>r.
       ret (f0 + r)))"
  by simp

lemma nsum_negative_range:
  "nsum env f (NegInf, Fin b) kwargs fuel = nsum env f (Fin (- b), PosInf) kwargs fuel"
  by simp

text \<open>
  Claim C2 fails on the code in its second part. For \<open>f(k) = 2\<^sup>k\<close> the sum over \<open>k \<le> -1\<close>
  has the terms \<open>f(-1), f(-2), f(-3), \<dots> = 1/2, 1/4, 1/8, \<dots>\<close>; \<^verbatim>\<open>nsum\<close> over \<open>[-inf, -1]\<close>
  sums \<open>f(1), f(2), f(3) = 2, 4, 8\<close> instead (direct summation, three terms).
\<close>

theorem nsum_negative_range_terms:
  "nsum demo_env two_pow (NegInf, Fin (- 1))
     \<lparr>kw_tol = None, kw_maxterms = Some 3, kw_method = Some ''d'', kw_steps = Some [3]\<rparr> 20 st0
     = Some (Inr (2 + 4 + 8), st0)
   \<and> two_pow (- 1) st0 = Some (Inr (1 / 2), st0)
   \<and> two_pow (- 2) st0 = Some (Inr (1 / 4), st0)
   \<and> two_pow (- 3) st0 = Some (Inr (1 / 8), st0)"
  by (simp add: eval_simps two_pow_def upto.simps extrapolation_loop_numeral)

end
